theory Spec2Isabelle
  imports Complex_Main
begin

section \<open>JavaScript values\<close>

text \<open>
  The result of JavaScript's \<open>parseFloat\<close>: a number, or \<open>NaN\<close>, or an infinity. A finite
  double is represented by the rational it denotes; comparisons of doubles agree with the
  comparisons of these rationals, and every comparison with \<open>NaN\<close> is false.
\<close>

datatype jsnum = NaN | Num rat | PosInf | NegInf

text \<open>The test \<open>x <= 0\<close> of line 255.\<close>

definition js_le0 :: "jsnum \<Rightarrow> bool" where
  "js_le0 x = (case x of NaN \<Rightarrow> False | Num v \<Rightarrow> v \<le> 0 | PosInf \<Rightarrow> False | NegInf \<Rightarrow> True)"

definition js_neg :: "jsnum \<Rightarrow> jsnum" where
  "js_neg x = (case x of NaN \<Rightarrow> NaN | Num v \<Rightarrow> Num (- v) | PosInf \<Rightarrow> NegInf | NegInf \<Rightarrow> PosInf)"

text \<open>
  A thrown value: the \<open>message\<close> of an \<open>Error\<close>, the \<open>reason\<close> that ethers attaches to
  some failures, and the numeric \<open>code\<close> that a wallet attaches to a refused request
  (\<open>None\<close> where the property is absent or not a number).
\<close>

datatype jserror = JsError (err_message: string) (err_reason: "string option") (err_code: "int option")

datatype outcome = Fulfilled | Rejected jserror

section \<open>The platform: parsers and conversions the components call\<close>

text \<open>
  \<open>parseFloat\<close> (the JavaScript built-in), \<open>ethers.parseUnits(s, 18)\<close> and the composition
  \<open>parseFloat(ethers.formatUnits(x, 18))\<close> are not code of the dashboard: they are
  parameters of the model.
\<close>

record env =
  parseFloat :: "string \<Rightarrow> jsnum"
  parseUnits :: "string \<Rightarrow> jserror + int"
  unitsToNumber :: "int \<Rightarrow> rat"

subsection \<open>A concrete platform\<close>

text \<open>
  The instance used to run the model on concrete inputs. \<open>js_parseFloat\<close> follows
  ECMAScript: leading white space is skipped, the longest prefix that is a decimal
  literal is read (sign, digits, fraction, exponent, or \<open>Infinity\<close>), and the result is
  \<open>NaN\<close> when there is none. The value is the exact rational the literal denotes
  (rounding to binary64 is not modelled).
\<close>

definition isDigit :: "char \<Rightarrow> bool" where
  "isDigit c = (48 \<le> (of_char c :: nat) \<and> (of_char c :: nat) \<le> 57)"

definition isWhiteSpace :: "char \<Rightarrow> bool" where
  "isWhiteSpace c = ((of_char c :: nat) = 32 \<or> (9 \<le> (of_char c :: nat) \<and> (of_char c :: nat) \<le> 13))"

definition digitsValue :: "string \<Rightarrow> nat" where
  "digitsValue ds = foldl (\<lambda>n c. 10 * n + (of_char c - 48)) 0 ds"

definition pow10 :: "int \<Rightarrow> rat" where
  "pow10 e = (if 0 \<le> e then 10 ^ nat e else 1 / 10 ^ nat (- e))"

definition exponentPart :: "string \<Rightarrow> int" where
  "exponentPart r =
     (case r of
        [] \<Rightarrow> 0
      | c # t \<Rightarrow>
          if c = CHR ''e'' \<or> c = CHR ''E'' then
            (case t of
               [] \<Rightarrow> 0
             | sg # u \<Rightarrow>
                 if sg = CHR ''+'' then int (digitsValue (takeWhile isDigit u))
                 else if sg = CHR ''-'' then - int (digitsValue (takeWhile isDigit u))
                 else int (digitsValue (takeWhile isDigit t)))
          else 0)"

definition unsignedLiteral :: "string \<Rightarrow> jsnum" where
  "unsignedLiteral s =
     (let ip = takeWhile isDigit s;
          r1 = dropWhile isDigit s;
          fp = (case r1 of [] \<Rightarrow> [] | c # t \<Rightarrow> if c = CHR ''.'' then takeWhile isDigit t else []);
          r2 = (case r1 of [] \<Rightarrow> [] | c # t \<Rightarrow> if c = CHR ''.'' then dropWhile isDigit t else r1)
      in if ip = [] \<and> fp = [] then (if take 8 s = ''Infinity'' then PosInf else NaN)
         else Num ((of_nat (digitsValue ip) + of_nat (digitsValue fp) / 10 ^ length fp)
                    * pow10 (exponentPart r2)))"

definition js_parseFloat :: "string \<Rightarrow> jsnum" where
  "js_parseFloat str =
     (case dropWhile isWhiteSpace str of
        [] \<Rightarrow> NaN
      | c # r \<Rightarrow>
          if c = CHR ''-'' then js_neg (unsignedLiteral r)
          else if c = CHR ''+'' then unsignedLiteral r
          else unsignedLiteral (c # r))"

text \<open>
  \<open>ethers.parseUnits(s, 18)\<close> of ethers v6: the whole string must be an optional minus
  sign, digits, an optional point and digits, with at least one digit; digits beyond the
  18th decimal must be zeros; the result is the integer scaled by \<open>10^18\<close>, which must fit
  512 bits signed.
\<close>

definition ethers_parseUnits :: "string \<Rightarrow> jserror + int" where
  "ethers_parseUnits s =
     (let neg = (case s of [] \<Rightarrow> False | c # t \<Rightarrow> c = CHR ''-'');
          r = (if neg then tl s else s);
          whole = takeWhile isDigit r;
          r1 = dropWhile isDigit r;
          r2 = (case r1 of [] \<Rightarrow> [] | c # t \<Rightarrow> if c = CHR ''.'' then t else r1);
          decimal = takeWhile isDigit r2;
          rest = dropWhile isDigit r2
      in if rest \<noteq> [] \<or> (whole = [] \<and> decimal = []) then
           Inl (JsError ''invalid FixedNumber string value'' None None)
         else if \<not> list_all (\<lambda>c. c = CHR ''0'') (drop 18 decimal) then
           Inl (JsError ''too many decimals for format'' None None)
         else
           (let v = int (digitsValue whole) * 10 ^ 18
                    + int (digitsValue (take 18 (decimal @ replicate 18 (CHR ''0''))));
                v' = (if neg then - v else v)
            in if - (2 ^ 511) \<le> v' \<and> v' < 2 ^ 511 then Inr v'
               else Inl (JsError ''overflow'' None None)))"

definition js_env :: env where
  "js_env = \<lparr>parseFloat = js_parseFloat, parseUnits = ethers_parseUnits,
             unitsToNumber = (\<lambda>x. of_int x / 10 ^ 18)\<rparr>"

section \<open>The staking panel (\<open>StakingCard\<close>)\<close>

text \<open>The \<open>{message, type}\<close> status object; \<open>NoType\<close> is the empty type string.\<close>

datatype status_type = NoType | Info | Success | Error

datatype status = Status (message: string) (stype: status_type)

definition idle :: status where
  "idle = Status [] NoType"

text \<open>The three actions \<open>handleTx\<close> is called with, and the contract write calls.\<close>

datatype action = Stake | Withdraw | Claim

datatype call = C_approve string int | C_stake int | C_withdraw int | C_claimReward

text \<open>
  What the panel did on the chain, newest first: \<open>Invoked c\<close> when a contract method is
  called, \<open>Confirmed c\<close> when the \<open>wait()\<close> of its transaction resolves.
\<close>

datatype chain_event = Invoked call | Confirmed call

definition INZO_STAKE_ADDRESS :: string where
  "INZO_STAKE_ADDRESS = ''0x4c26a70c7d3A185f8f43570567C4bE84113765D9''"

text \<open>The results of the three read queries of one read cycle.\<close>

record reads =
  r_balanceOf :: "jserror + int"
  r_stakedBalance :: "jserror + int"
  r_earned :: "jserror + int"

text \<open>
  The values a callback closes over at the render that created it: the \<open>userAddress\<close>
  prop and whether each contract handle is set (\<open>False\<close> is \<open>null\<close>).
\<close>

record closure =
  c_userAddress :: "string option"
  c_inzoStakeContract :: bool
  c_inzoUSDContract :: bool

text \<open>
  A running \<open>handleTx\<close> is suspended at one of its \<open>await\<close>s: on the promise of a contract
  method (\<open>Sending\<close>), on the \<open>wait()\<close> of the transaction (\<open>Waiting\<close>), or on
  \<open>fetchData()\<close> (\<open>Refetching\<close>).
\<close>

datatype pc = Sending call | Waiting call | Refetching

record task =
  t_pc :: pc
  t_successMsg :: string
  t_closure :: closure

text \<open>
  The state of the panel: the React state of \<open>StakingCard\<close>, the running \<open>handleTx\<close>
  calls, the pending \<open>setTimeout\<close> callbacks (the time each is due, in milliseconds), the
  clock, and the chain trace.
\<close>

record panel =
  userAddress :: "string option"
  inzoStakeContract :: bool
  inzoUSDContract :: bool
  inzoUSDBalance :: rat
  stakedBalance :: rat
  earnedRewards :: rat
  stakeAmount :: string
  withdrawAmount :: string
  loading :: bool
  status :: status
  tasks :: "task list"
  timers :: "nat list"
  now :: nat
  chain :: "chain_event list"

definition truthy :: "string option \<Rightarrow> bool" where
  "truthy a = (case a of None \<Rightarrow> False | Some x \<Rightarrow> x \<noteq> [])"

definition capture :: "panel \<Rightarrow> closure" where
  "capture s = \<lparr>c_userAddress = userAddress s, c_inzoStakeContract = inzoStakeContract s,
                c_inzoUSDContract = inzoUSDContract s\<rparr>"

text \<open>
  \<open>Promise.all\<close> of the three reads: fulfilled with the three values when all are
  fulfilled, rejected as soon as one is rejected (the error is discarded by the caller).
\<close>

definition promise_all :: "reads \<Rightarrow> jserror + (int \<times> int \<times> int)" where
  "promise_all rs =
     (case r_balanceOf rs of
        Inl e \<Rightarrow> Inl e
      | Inr usdBalance \<Rightarrow>
          (case r_stakedBalance rs of
             Inl e \<Rightarrow> Inl e
           | Inr staked \<Rightarrow>
               (case r_earned rs of
                  Inl e \<Rightarrow> Inl e
                | Inr earned \<Rightarrow> Inr (usdBalance, staked, earned))))"

text \<open>\<open>fetchData\<close> (lines 231-243), applied when its three queries have settled.\<close>

definition fetchData :: "env \<Rightarrow> closure \<Rightarrow> reads \<Rightarrow> panel \<Rightarrow> panel" where
  "fetchData env cl rs s =
     (if \<not> truthy (c_userAddress cl) \<or> \<not> c_inzoStakeContract cl \<or> \<not> c_inzoUSDContract cl then s
      else case promise_all rs of
             Inl error \<Rightarrow> s
           | Inr (usdBalance, staked, earned) \<Rightarrow>
               s\<lparr>inzoUSDBalance := unitsToNumber env usdBalance,
                 stakedBalance := unitsToNumber env staked,
                 earnedRewards := unitsToNumber env earned\<rparr>)"

text \<open>
  The \<open>catch\<close> block of \<open>handleTx\<close> (line 275) followed by \<open>setLoading(false)\<close>
  (line 277). The message is \<open>error.reason || "Check console"\<close>: an absent or empty
  reason gives the fallback.
\<close>

definition reasonOr :: "jserror \<Rightarrow> string" where
  "reasonOr error =
     (case err_reason error of
        None \<Rightarrow> ''Check console''
      | Some r \<Rightarrow> if r = [] then ''Check console'' else r)"

definition catchTx :: "jserror \<Rightarrow> panel \<Rightarrow> panel" where
  "catchTx error s = s\<lparr>status := Status (''Failed: '' @ reasonOr error) Error, loading := False\<rparr>"

text \<open>
  Calling a contract method: on a \<open>null\<close> handle the property access throws a
  \<open>TypeError\<close> and nothing is sent; otherwise the call is made and \<open>handleTx\<close> is
  suspended on its promise.
\<close>

definition contractSet :: "closure \<Rightarrow> call \<Rightarrow> bool" where
  "contractSet cl c =
     (case c of
        C_approve spender amount \<Rightarrow> c_inzoUSDContract cl
      | C_stake amount \<Rightarrow> c_inzoStakeContract cl
      | C_withdraw amount \<Rightarrow> c_inzoStakeContract cl
      | C_claimReward \<Rightarrow> c_inzoStakeContract cl)"

definition typeError :: jserror where
  "typeError = JsError ''Cannot read properties of null'' None None"

definition invoke :: "closure \<Rightarrow> string \<Rightarrow> call \<Rightarrow> panel \<Rightarrow> panel" where
  "invoke cl successMsg c s =
     (if contractSet cl c then
        s\<lparr>chain := Invoked c # chain s,
          tasks := tasks s @ [\<lparr>t_pc = Sending c, t_successMsg = successMsg, t_closure = cl\<rparr>]\<rparr>
      else catchTx typeError s)"

text \<open>The validation of line 255.\<close>

definition invalidAmount :: "env \<Rightarrow> action \<Rightarrow> string \<Rightarrow> bool" where
  "invalidAmount env action amountStr =
     (action \<noteq> Claim \<and> (amountStr = [] \<or> js_le0 (parseFloat env amountStr)))"

text \<open>
  \<open>handleTx\<close> (lines 251-278) from its call to its first \<open>await\<close>, or to its end when it
  throws before one.
\<close>

definition handleTx :: "env \<Rightarrow> action \<Rightarrow> string \<Rightarrow> string \<Rightarrow> panel \<Rightarrow> panel" where
  "handleTx env action amountStr successMsg s =
     (let cl = capture s;
          s1 = s\<lparr>loading := True, status := Status ''Preparing transaction...'' Info\<rparr>
      in if invalidAmount env action amountStr then catchTx (JsError ''Invalid amount'' None None) s1
         else
           (case (if action \<noteq> Claim then parseUnits env amountStr else Inr 0) of
              Inl error \<Rightarrow> catchTx error s1
            | Inr amount \<Rightarrow>
                (case action of
                   Stake \<Rightarrow>
                     invoke cl successMsg (C_approve INZO_STAKE_ADDRESS amount)
                       (s1\<lparr>status := Status ''Approving...'' Info\<rparr>)
                 | Withdraw \<Rightarrow> invoke cl successMsg (C_withdraw amount) s1
                 | Claim \<Rightarrow> invoke cl successMsg C_claimReward s1)))"

text \<open>
  Lines 269-273, reached when the last transaction of the action is confirmed: the
  success status, the 3000 ms timer, the cleared inputs, and the call of \<open>fetchData\<close>.
\<close>

definition succeed :: "task \<Rightarrow> panel \<Rightarrow> panel" where
  "succeed t s =
     s\<lparr>status := Status (t_successMsg t) Success,
       timers := timers s @ [now s + 3000],
       stakeAmount := [],
       withdrawAmount := [],
       tasks := tasks s @ [t\<lparr>t_pc := Refetching\<rparr>]\<rparr>"

text \<open>
  A \<open>handleTx\<close> suspended on a transaction resumes when the promise it awaits settles
  (lines 258-267): a rejection is thrown into the \<open>catch\<close> block; a sent transaction is
  waited for; a confirmed approval is followed by the stake call; any other confirmed
  transaction ends the \<open>try\<close> block. \<open>s\<close> is the panel without the task, which is added
  again when it suspends once more (a task suspended on \<open>fetchData\<close> is left as it is).
\<close>

definition settle :: "task \<Rightarrow> outcome \<Rightarrow> panel \<Rightarrow> panel" where
  "settle t r s =
     (case r of
        Rejected error \<Rightarrow> catchTx error s
      | Fulfilled \<Rightarrow>
          (case t_pc t of
             Sending c \<Rightarrow> s\<lparr>tasks := tasks s @ [t\<lparr>t_pc := Waiting c\<rparr>]\<rparr>
           | Waiting c \<Rightarrow>
               (let s1 = s\<lparr>chain := Confirmed c # chain s\<rparr>
                in case c of
                     C_approve spender amount \<Rightarrow>
                       invoke (t_closure t) (t_successMsg t) (C_stake amount)
                         (s1\<lparr>status := Status ''Staking...'' Info\<rparr>)
                   | C_stake amount \<Rightarrow> succeed t s1
                   | C_withdraw amount \<Rightarrow> succeed t s1
                   | C_claimReward \<Rightarrow> succeed t s1)
           | Refetching \<Rightarrow> s\<lparr>tasks := tasks s @ [t]\<rparr>))"

text \<open>The end of \<open>handleTx\<close>: \<open>fetchData\<close> has returned, then \<open>setLoading(false)\<close>.\<close>

definition refetched :: "env \<Rightarrow> task \<Rightarrow> reads \<Rightarrow> panel \<Rightarrow> panel" where
  "refetched env t rs s = (fetchData env (t_closure t) rs s)\<lparr>loading := False\<rparr>"

definition without :: "nat \<Rightarrow> 'a list \<Rightarrow> 'a list" where
  "without i xs = take i xs @ drop (Suc i) xs"

text \<open>The \<open>disabled\<close> attribute of the three buttons (lines 288-290).\<close>

definition disabled :: "action \<Rightarrow> panel \<Rightarrow> bool" where
  "disabled a s =
     (case a of
        Stake \<Rightarrow> stakeAmount s = [] \<or> loading s
      | Withdraw \<Rightarrow> withdrawAmount s = [] \<or> loading s
      | Claim \<Rightarrow> earnedRewards s \<le> 1 / 1000000 \<or> loading s)"

text \<open>A click: a disabled button dispatches nothing; the others call \<open>handleTx\<close>.\<close>

definition click :: "env \<Rightarrow> action \<Rightarrow> panel \<Rightarrow> panel" where
  "click env a s =
     (if disabled a s then s
      else case a of
             Stake \<Rightarrow> handleTx env Stake (stakeAmount s) ''Staked successfully!'' s
           | Withdraw \<Rightarrow> handleTx env Withdraw (withdrawAmount s) ''Withdrawn successfully!'' s
           | Claim \<Rightarrow> handleTx env Claim ''0'' ''Rewards claimed!'' s)"

text \<open>
  What can happen to a mounted panel: a click, an edit of an input, the contracts being
  set by the mount effect, the promise awaited by the \<open>i\<close>-th running \<open>handleTx\<close> settling,
  its \<open>fetchData\<close> returning, a read cycle of the polling interval completing, and time
  passing (which runs the timers that have become due: each resets the status).
\<close>

datatype event =
    Click action
  | ChangeStake string
  | ChangeWithdraw string
  | Init
  | Settle nat outcome
  | Fetched nat reads
  | Poll reads
  | Elapse nat

definition elapse :: "nat \<Rightarrow> panel \<Rightarrow> panel" where
  "elapse d s =
     (let t = now s + d
      in s\<lparr>now := t,
           timers := filter (\<lambda>due. t < due) (timers s),
           status := (if list_ex (\<lambda>due. due \<le> t) (timers s) then idle else status s)\<rparr>)"

definition step :: "env \<Rightarrow> event \<Rightarrow> panel \<Rightarrow> panel" where
  "step env ev s =
     (case ev of
        Click a \<Rightarrow> click env a s
      | ChangeStake v \<Rightarrow> s\<lparr>stakeAmount := v\<rparr>
      | ChangeWithdraw v \<Rightarrow> s\<lparr>withdrawAmount := v\<rparr>
      | Init \<Rightarrow> s\<lparr>inzoStakeContract := True, inzoUSDContract := True\<rparr>
      | Settle i r \<Rightarrow>
          if i < length (tasks s) \<and> t_pc (tasks s ! i) \<noteq> Refetching
          then settle (tasks s ! i) r (s\<lparr>tasks := without i (tasks s)\<rparr>)
          else s
      | Fetched i rs \<Rightarrow>
          if i < length (tasks s) \<and> t_pc (tasks s ! i) = Refetching
          then refetched env (tasks s ! i) rs (s\<lparr>tasks := without i (tasks s)\<rparr>)
          else s
      | Poll rs \<Rightarrow> fetchData env (capture s) rs s
      | Elapse d \<Rightarrow> elapse d s)"

definition run :: "env \<Rightarrow> event list \<Rightarrow> panel \<Rightarrow> panel" where
  "run env evs s = foldl (\<lambda>s ev. step env ev s) s evs"

text \<open>A freshly mounted panel for a connected user, before the contracts are set.\<close>

definition mounted :: "string \<Rightarrow> panel" where
  "mounted addr =
     \<lparr>userAddress = Some addr, inzoStakeContract = False, inzoUSDContract = False,
      inzoUSDBalance = 0, stakedBalance = 0, earnedRewards = 0,
      stakeAmount = [], withdrawAmount = [], loading = False, status = Status [] NoType,
      tasks = [], timers = [], now = 0, chain = []\<rparr>"

subsection \<open>Properties of the chain trace and of the running actions\<close>

text \<open>
  \<open>stake_after_approval\<close>: every \<open>stake(amount)\<close> call in the trace was made directly
  after the confirmation of \<open>approve(INZO_STAKE_ADDRESS, amount)\<close>.
\<close>

definition approval_confirmed :: "int \<Rightarrow> chain_event list \<Rightarrow> bool" where
  "approval_confirmed amount older =
     (case older of [] \<Rightarrow> False | e # _ \<Rightarrow> e = Confirmed (C_approve INZO_STAKE_ADDRESS amount))"

primrec stake_after_approval :: "chain_event list \<Rightarrow> bool" where
  "stake_after_approval [] = True"
| "stake_after_approval (e # older) =
     ((case e of
         Invoked c \<Rightarrow> (case c of C_stake amount \<Rightarrow> approval_confirmed amount older | _ \<Rightarrow> True)
       | Confirmed c \<Rightarrow> True)
      \<and> stake_after_approval older)"

text \<open>
  Two invariants of the runs of a panel. \<open>sequenced\<close>: the trace is ordered as above and
  every \<open>approve\<close> a running action waits for names the staking contract as spender.
  \<open>one_in_flight\<close>: no action is running, or exactly one is and the busy flag is set.
\<close>

definition approve_spender_ok :: "task \<Rightarrow> bool" where
  "approve_spender_ok t =
     (case t_pc t of
        Sending c \<Rightarrow> (case c of C_approve spender amount \<Rightarrow> spender = INZO_STAKE_ADDRESS | _ \<Rightarrow> True)
      | Waiting c \<Rightarrow> (case c of C_approve spender amount \<Rightarrow> spender = INZO_STAKE_ADDRESS | _ \<Rightarrow> True)
      | Refetching \<Rightarrow> True)"

definition sequenced :: "panel \<Rightarrow> bool" where
  "sequenced s = (stake_after_approval (chain s) \<and> list_all approve_spender_ok (tasks s))"

definition one_in_flight :: "panel \<Rightarrow> bool" where
  "one_in_flight s = (tasks s = [] \<or> (length (tasks s) = 1 \<and> loading s))"

subsection \<open>Example panels and runs\<close>

text \<open>
  A panel whose contracts are set; the same panel after a read cycle that found a balance
  of 500 and rewards of 2; a read cycle whose first query fails; one whose queries all
  succeed; a stake of 100 up to the confirmation of the approval; and a claim followed,
  one second after its success, by a stake of the amount \<open>0\<close>.
\<close>

definition ready_panel :: panel where
  "ready_panel = step js_env Init (mounted ''0xA11ce'')"

definition failing_cycle :: reads where
  "failing_cycle = \<lparr>r_balanceOf = Inl (JsError ''timeout'' None None),
                     r_stakedBalance = Inr (7 * 10 ^ 18), r_earned = Inr 0\<rparr>"

definition good_cycle :: reads where
  "good_cycle = \<lparr>r_balanceOf = Inr (5 * 10 ^ 18), r_stakedBalance = Inr (7 * 10 ^ 18),
                  r_earned = Inr (2 * 10 ^ 18)\<rparr>"

definition funded_panel :: panel where
  "funded_panel =
     run js_env [Init, Poll \<lparr>r_balanceOf = Inr (500 * 10 ^ 18), r_stakedBalance = Inr 0,
                              r_earned = Inr (2 * 10 ^ 18)\<rparr>] (mounted ''0xA11ce'')"

definition stake_100 :: "event list" where
  "stake_100 = [ChangeStake ''100'', Click Stake, Settle 0 Fulfilled, Settle 0 Fulfilled]"

definition claim_then_bad_stake :: "event list" where
  "claim_then_bad_stake =
     [Click Claim, Settle 0 Fulfilled, Settle 0 Fulfilled,
      Fetched 0 \<lparr>r_balanceOf = Inr (502 * 10 ^ 18), r_stakedBalance = Inr 0, r_earned = Inr 0\<rparr>,
      Elapse 1000, ChangeStake ''0'', Click Stake]"

section \<open>The animated number (\<open>AnimatedNumber\<close>)\<close>

text \<open>
  Both copies of the component (lines 4-25 and 37-59) run the same effect and differ in
  the formatting of the number only. A display slot: the ref \<open>prevValue\<close>, the dependencies \<open>[value, precision]\<close> of the last
  run of the effect, the ref to the \<open>span\<close> (\<open>node\<close>; set once mounted), the animations that
  are running (each started by \<open>animate(from, to, ...)\<close> with the duration 0.8 s and the
  easing \<open>easeOut\<close>, under the handle \<open>animate\<close> returned), the handle the pending cleanup
  \<open>() => controls.stop()\<close> closes over, the next handle, and the number last written to the
  node by \<open>onUpdate\<close> (before it is formatted to \<open>precision\<close> decimals).
\<close>

record tween =
  tw_from :: rat
  tw_to :: rat

record slot =
  prevValue :: rat
  deps :: "rat \<times> nat"
  node :: bool
  sessions :: "(nat \<times> tween) list"
  controls :: "nat option"
  fresh :: nat
  textContent :: "rat option"

definition animate :: "rat \<Rightarrow> rat \<Rightarrow> slot \<Rightarrow> slot" where
  "animate from to s =
     s\<lparr>sessions := sessions s @ [(fresh s, \<lparr>tw_from = from, tw_to = to\<rparr>)],
       controls := Some (fresh s),
       fresh := Suc (fresh s)\<rparr>"

definition stop :: "nat \<Rightarrow> slot \<Rightarrow> slot" where
  "stop h s = s\<lparr>sessions := filter (\<lambda>x. fst x \<noteq> h) (sessions s)\<rparr>"

text \<open>The cleanup returned by the last run of the effect (line 21), if it returned one.\<close>

definition cleanup :: "slot \<Rightarrow> slot" where
  "cleanup s = (case controls s of None \<Rightarrow> s | Some h \<Rightarrow> (stop h s)\<lparr>controls := None\<rparr>)"

text \<open>The body of the effect (lines 9-20).\<close>

definition effect :: "rat \<Rightarrow> nat \<Rightarrow> slot \<Rightarrow> slot" where
  "effect v precision s =
     (if \<not> node s then s
      else (animate (prevValue s) v s)\<lparr>prevValue := v\<rparr>)"

text \<open>
  A render with the props \<open>value\<close> and \<open>precision\<close>: when a dependency has changed, React
  runs the cleanup of the previous effect and then the effect. The first render
  initialises the ref with \<open>useRef(value)\<close> and runs the effect.
\<close>

definition render :: "rat \<Rightarrow> nat \<Rightarrow> slot \<Rightarrow> slot" where
  "render v precision s =
     (if deps s = (v, precision) then s
      else effect v precision ((cleanup s)\<lparr>deps := (v, precision)\<rparr>))"

definition mount :: "rat \<Rightarrow> nat \<Rightarrow> slot" where
  "mount v precision =
     effect v precision
       \<lparr>prevValue = v, deps = (v, precision), node = True, sessions = [], controls = None,
        fresh = 0, textContent = None\<rparr>"

text \<open>
  What happens to a mounted slot: a render, a sample of the running animation \<open>h\<close>
  reaching \<open>onUpdate\<close>, and the animation \<open>h\<close> coming to its end.
\<close>

datatype slot_event = Render rat nat | Frame nat rat | Finish nat

definition slot_step :: "slot_event \<Rightarrow> slot \<Rightarrow> slot" where
  "slot_step ev s =
     (case ev of
        Render v precision \<Rightarrow> render v precision s
      | Frame h latest \<Rightarrow>
          if list_ex (\<lambda>x. fst x = h) (sessions s) then s\<lparr>textContent := Some latest\<rparr> else s
      | Finish h \<Rightarrow> s\<lparr>sessions := filter (\<lambda>x. fst x \<noteq> h) (sessions s)\<rparr>)"

definition slot_run :: "slot_event list \<Rightarrow> slot \<Rightarrow> slot" where
  "slot_run evs s = foldl (\<lambda>s ev. slot_step ev s) s evs"

text \<open>
  The invariant of a slot: at most one animation runs, it is the one the pending cleanup
  will stop, and its target is the value of the last render.
\<close>

definition single_writer :: "slot \<Rightarrow> bool" where
  "single_writer s =
     (node s \<and> prevValue s = fst (deps s)
      \<and> list_all (\<lambda>x. controls s = Some (fst x) \<and> fst x < fresh s \<and> tw_to (snd x) = prevValue s)
           (sessions s)
      \<and> length (sessions s) \<le> 1)"

text \<open>A slot mounted with 0, re-rendered with 10, whose animation has so far shown 4.\<close>

definition midway :: slot where
  "midway = slot_run [Render 10 2, Frame 1 4] (mount 0 2)"

section \<open>The tween sampler\<close>






section \<open>Connecting the wallet (\<open>connectWallet\<close>)\<close>

definition CORRECT_CHAIN_ID :: nat where
  "CORRECT_CHAIN_ID = 420420421"

text \<open>\<open>ethers.toQuantity\<close>: \<open>0x\<close> and the hexadecimal digits, without leading zeros.\<close>

definition hexDigit :: "nat \<Rightarrow> char" where
  "hexDigit d = ''0123456789abcdef'' ! d"

fun hexDigits :: "nat \<Rightarrow> string" where
  "hexDigits n = (if n < 16 then [hexDigit n] else hexDigits (n div 16) @ [hexDigit (n mod 16)])"

definition toQuantity :: "nat \<Rightarrow> string" where
  "toQuantity n = ''0x'' @ hexDigits n"

record network =
  n_chainId :: string
  n_chainName :: string
  n_currencyName :: string
  n_currencySymbol :: string
  n_currencyDecimals :: nat
  n_rpcUrls :: "string list"

definition networkConfig :: network where
  "networkConfig =
     \<lparr>n_chainId = toQuantity CORRECT_CHAIN_ID,
      n_chainName = ''Westend Asset Hub'',
      n_currencyName = ''Westend'', n_currencySymbol = ''WND'', n_currencyDecimals = 18,
      n_rpcUrls = [''https://westend-asset-hub-eth-rpc.polkadot.io/'']\<rparr>"

text \<open>The requests \<open>connectWallet\<close> sends to \<open>window.talismanEth\<close>.\<close>

datatype request = Wallet_switchEthereumChain string | Wallet_addEthereumChain network

text \<open>
  How the wallet answers during one connection: whether the Talisman extension is
  listed, the outcome of \<open>enable\<close>, whether \<open>window.talismanEth\<close> exists, the chain id
  \<open>getNetwork\<close> reports, the outcomes of the switch and add requests, of \<open>getSigner\<close>, and
  the address \<open>getAddress\<close> returns.
\<close>

record wallet =
  w_talisman :: bool
  w_enable :: outcome
  w_talismanEth :: bool
  w_getNetwork :: "jserror + nat"
  w_switch :: outcome
  w_add :: outcome
  w_getSigner :: outcome
  w_getAddress :: "jserror + string"

text \<open>The React state of \<open>App\<close> that \<open>connectWallet\<close> writes, and the requests sent.\<close>

record app =
  app_userAddress :: "string option"
  app_inzoStakeContract :: bool
  app_loading :: bool
  app_status :: status
  app_requests :: "request list"

text \<open>
  Lines 96-106, entered when the chain differs. \<open>Inl (error, s)\<close> is a throw of \<open>error\<close> in
  the state \<open>s\<close>.
\<close>

definition switchNetwork :: "wallet \<Rightarrow> app \<Rightarrow> jserror \<times> app + app" where
  "switchNetwork w s =
     (let s1 = s\<lparr>app_status := Status ''Switching network...'' Info,
                 app_requests := app_requests s @ [Wallet_switchEthereumChain (n_chainId networkConfig)]\<rparr>
      in case w_switch w of
           Fulfilled \<Rightarrow> Inr s1
         | Rejected switchError \<Rightarrow>
             if err_code switchError = Some 4902 then
               (let s2 = s1\<lparr>app_requests := app_requests s1 @ [Wallet_addEthereumChain networkConfig]\<rparr>
                in case w_add w of
                     Fulfilled \<Rightarrow> Inr s2
                   | Rejected error \<Rightarrow> Inl (error, s2))
             else Inl (JsError ''User rejected network switch.'' None None, s1))"

text \<open>Lines 108-113: the signer, its address, and the state of a connected \<open>App\<close>.\<close>

definition signIn :: "wallet \<Rightarrow> app \<Rightarrow> jserror \<times> app + app" where
  "signIn w s =
     (case w_getSigner w of
        Rejected error \<Rightarrow> Inl (error, s)
      | Fulfilled \<Rightarrow>
          (case w_getAddress w of
             Inl error \<Rightarrow> Inl (error, s)
           | Inr address \<Rightarrow>
               Inr (s\<lparr>app_userAddress := Some address,
                       app_inzoStakeContract := True,
                       app_status := Status [] NoType\<rparr>)))"

text \<open>The \<open>try\<close> block of \<open>connectWallet\<close> (lines 87-113).\<close>

definition connecting :: "wallet \<Rightarrow> app \<Rightarrow> jserror \<times> app + app" where
  "connecting w s =
     (if \<not> w_talisman w then
        Inl (JsError ''Talisman wallet not found. Please install it.'' None None, s)
      else case w_enable w of
        Rejected error \<Rightarrow> Inl (error, s)
      | Fulfilled \<Rightarrow>
          if \<not> w_talismanEth w then Inl (JsError ''Talisman EVM provider not found.'' None None, s)
          else case w_getNetwork w of
            Inl error \<Rightarrow> Inl (error, s)
          | Inr chainId \<Rightarrow>
              (case (if chainId \<noteq> CORRECT_CHAIN_ID then switchNetwork w s else Inr s) of
                 Inl thrown \<Rightarrow> Inl thrown
               | Inr s1 \<Rightarrow> signIn w s1))"

text \<open>The \<open>catch\<close> (line 115) and the \<open>finally\<close> (line 117).\<close>

definition catchFinally :: "jserror \<times> app + app \<Rightarrow> app" where
  "catchFinally r =
     (case r of
        Inl (error, s) \<Rightarrow> s\<lparr>app_status := Status (err_message error) Error, app_loading := False\<rparr>
      | Inr s \<Rightarrow> s\<lparr>app_loading := False\<rparr>)"

text \<open>\<open>connectWallet\<close> (lines 83-119).\<close>

definition connectWallet :: "wallet \<Rightarrow> app \<Rightarrow> app" where
  "connectWallet w s =
     catchFinally (connecting w (s\<lparr>app_loading := True, app_status := Status ''Connecting...'' Info\<rparr>))"

text \<open>
  The state of \<open>App\<close> before a connection, and a wallet that is on chain 1 and answers
  the switch request as given.
\<close>

definition disconnected :: app where
  "disconnected =
     \<lparr>app_userAddress = None, app_inzoStakeContract = False, app_loading = False,
      app_status = Status [] NoType, app_requests = []\<rparr>"

definition wrong_network_wallet :: "outcome \<Rightarrow> wallet" where
  "wrong_network_wallet sw =
     \<lparr>w_talisman = True, w_enable = Fulfilled, w_talismanEth = True, w_getNetwork = Inr 1,
      w_switch = sw, w_add = Fulfilled, w_getSigner = Fulfilled, w_getAddress = Inr ''0xA11ce''\<rparr>"

section \<open>Read cycles\<close>

lemma promise_all_Inl:
  assumes "r_balanceOf rs = Inl e \<or> r_stakedBalance rs = Inl e \<or> r_earned rs = Inl e"
  shows "\<exists>e'. promise_all rs = Inl e'"
  using assms
  by (auto simp: promise_all_def split: sum.splits)

text \<open>
  C1, as stated, fails: in a read cycle whose \<open>balanceOf\<close> query fails while \<open>stakedBalance\<close>
  succeeds with 7, the staked balance shown stays 0. \<open>Promise.all\<close> rejects as soon as one
  query fails, and the three setters (lines 239-241) are skipped together.
\<close>

theorem read_cycle_isolation_counterexample:
  "r_balanceOf failing_cycle = Inl (JsError ''timeout'' None None)
   \<and> r_stakedBalance failing_cycle = Inr (7 * 10 ^ 18)
   \<and> unitsToNumber js_env (7 * 10 ^ 18) = 7
   \<and> stakedBalance ready_panel = 0
   \<and> stakedBalance (step js_env (Poll failing_cycle) ready_panel) = 0"
  by (simp add: failing_cycle_def ready_panel_def step_def fetchData_def promise_all_def
      capture_def mounted_def truthy_def js_env_def)

text \<open>
  C1, amended: a read cycle is all or nothing. If any one of the three queries fails,
  every slot keeps the value it had before the cycle, also those whose own query
  succeeded; when the address and both contracts are set and all three queries succeed,
  the three slots are updated together.
\<close>

theorem fetchData_all_or_nothing:
  "(r_balanceOf rs = Inl e \<or> r_stakedBalance rs = Inl e \<or> r_earned rs = Inl e
      \<longrightarrow> fetchData env cl rs s = s)
   \<and> (truthy (c_userAddress cl) \<and> c_inzoStakeContract cl \<and> c_inzoUSDContract cl
        \<and> r_balanceOf rs = Inr usdBalance \<and> r_stakedBalance rs = Inr staked \<and> r_earned rs = Inr earned
      \<longrightarrow> fetchData env cl rs s =
            s\<lparr>inzoUSDBalance := unitsToNumber env usdBalance,
              stakedBalance := unitsToNumber env staked,
              earnedRewards := unitsToNumber env earned\<rparr>)"
proof (intro conjI impI)
  assume "r_balanceOf rs = Inl e \<or> r_stakedBalance rs = Inl e \<or> r_earned rs = Inl e"
  then obtain e' where "promise_all rs = Inl e'"
    using promise_all_Inl by blast
  then show "fetchData env cl rs s = s"
    by (simp add: fetchData_def)
next
  assume a: "truthy (c_userAddress cl) \<and> c_inzoStakeContract cl \<and> c_inzoUSDContract cl
        \<and> r_balanceOf rs = Inr usdBalance \<and> r_stakedBalance rs = Inr staked \<and> r_earned rs = Inr earned"
  then have "promise_all rs = Inr (usdBalance, staked, earned)"
    by (simp add: promise_all_def)
  with a show "fetchData env cl rs s =
            s\<lparr>inzoUSDBalance := unitsToNumber env usdBalance,
              stakedBalance := unitsToNumber env staked,
              earnedRewards := unitsToNumber env earned\<rparr>"
    by (simp add: fetchData_def)
qed

theorem fetchData_all_or_nothing_witness:
  "fetchData js_env (capture ready_panel) failing_cycle ready_panel = ready_panel
   \<and> fetchData js_env (capture ready_panel) good_cycle ready_panel =
       ready_panel\<lparr>inzoUSDBalance := 5, stakedBalance := 7, earnedRewards := 2\<rparr>"
proof -
  have g: "truthy (c_userAddress (capture ready_panel)) \<and> c_inzoStakeContract (capture ready_panel)
           \<and> c_inzoUSDContract (capture ready_panel)"
    by (simp add: ready_panel_def step_def capture_def mounted_def truthy_def)
  have f: "r_balanceOf failing_cycle = Inl (JsError ''timeout'' None None)"
    by (simp add: failing_cycle_def)
  have r: "r_balanceOf good_cycle = Inr (5 * 10 ^ 18) \<and> r_stakedBalance good_cycle = Inr (7 * 10 ^ 18)
           \<and> r_earned good_cycle = Inr (2 * 10 ^ 18)"
    by (simp add: good_cycle_def)
  have u: "unitsToNumber js_env (5 * 10 ^ 18) = 5 \<and> unitsToNumber js_env (7 * 10 ^ 18) = 7
           \<and> unitsToNumber js_env (2 * 10 ^ 18) = 2"
    by (simp add: js_env_def)
  show ?thesis
    using fetchData_all_or_nothing [of failing_cycle "JsError ''timeout'' None None" js_env
        "capture ready_panel" ready_panel]
      fetchData_all_or_nothing [of good_cycle _ js_env "capture ready_panel" ready_panel
        "5 * 10 ^ 18" "7 * 10 ^ 18" "2 * 10 ^ 18"]
      g f r u
    by simp
qed

section \<open>Write actions\<close>

text \<open>
  C2: for \<open>stake\<close> and \<open>withdraw\<close>, an amount string that is empty or that \<open>parseFloat\<close>
  reads as a number at or below zero makes \<open>handleTx\<close> end before its first \<open>await\<close>: the
  status is the error \<open>Failed: Check console\<close>, the busy flag is reset, and nothing else
  of the panel changes; in particular no contract call is made and none is pending.
\<close>

theorem handleTx_invalid_amount:
  assumes "action = Stake \<or> action = Withdraw"
    and "amountStr = [] \<or> js_le0 (parseFloat env amountStr)"
  shows "handleTx env action amountStr successMsg s =
           s\<lparr>status := Status ''Failed: Check console'' Error, loading := False\<rparr>"
proof -
  from assms have "invalidAmount env action amountStr"
    by (auto simp: invalidAmount_def)
  then show ?thesis
    by (simp add: handleTx_def catchTx_def reasonOr_def Let_def)
qed

theorem handleTx_invalid_amount_witness:
  "handleTx js_env Stake '''' ''Staked successfully!'' ready_panel =
     ready_panel\<lparr>status := Status ''Failed: Check console'' Error, loading := False\<rparr>
   \<and> handleTx js_env Stake ''0'' ''Staked successfully!'' ready_panel =
     ready_panel\<lparr>status := Status ''Failed: Check console'' Error, loading := False\<rparr>
   \<and> handleTx js_env Withdraw ''-5'' ''Withdrawn successfully!'' ready_panel =
     ready_panel\<lparr>status := Status ''Failed: Check console'' Error, loading := False\<rparr>
   \<and> chain (ready_panel\<lparr>status := Status ''Failed: Check console'' Error, loading := False\<rparr>) = []"
proof -
  have z: "js_le0 (parseFloat js_env ''0'')" by code_simp
  have m: "js_le0 (parseFloat js_env ''-5'')" by code_simp
  have c: "chain ready_panel = []"
    by (simp add: ready_panel_def step_def mounted_def)
  show ?thesis
    using handleTx_invalid_amount [of Stake "''''" js_env "''Staked successfully!''" ready_panel]
      handleTx_invalid_amount [of Stake "''0''" js_env "''Staked successfully!''" ready_panel]
      handleTx_invalid_amount [of Withdraw "''-5''" js_env "''Withdrawn successfully!''" ready_panel]
      z m c
    by simp
qed

subsection \<open>What a run of the panel preserves\<close>

lemma fetchData_frame [simp]:
  "tasks (fetchData env cl rs s) = tasks s"
  "loading (fetchData env cl rs s) = loading s"
  "chain (fetchData env cl rs s) = chain s"
  "status (fetchData env cl rs s) = status s"
  "timers (fetchData env cl rs s) = timers s"
  by (simp_all add: fetchData_def split: sum.splits prod.splits)

lemma catchTx_frame [simp]:
  "tasks (catchTx e s) = tasks s"
  "chain (catchTx e s) = chain s"
  "loading (catchTx e s) = False"
  "status (catchTx e s) = Status (''Failed: '' @ reasonOr e) Error"
  "timers (catchTx e s) = timers s"
  by (simp_all add: catchTx_def)

lemma without_in_set: "x \<in> set (without i xs) \<Longrightarrow> x \<in> set xs"
  by (auto simp: without_def dest: in_set_takeD in_set_dropD)

lemma list_all_without: "list_all P xs \<Longrightarrow> list_all P (without i xs)"
  by (auto simp: list_all_iff dest: without_in_set)

lemma without_single: "length xs = 1 \<Longrightarrow> i < length xs \<Longrightarrow> without i xs = []"
  by (cases xs) (auto simp: without_def)

subsection \<open>Stake calls follow the confirmation of the approval\<close>

lemma invoke_sequenced:
  assumes "sequenced s" "approve_spender_ok \<lparr>t_pc = Sending c, t_successMsg = m, t_closure = cl\<rparr>"
    and "\<And>amount. c = C_stake amount \<Longrightarrow> approval_confirmed amount (chain s)"
  shows "sequenced (invoke cl m c s)"
  using assms by (cases c) (auto simp: sequenced_def invoke_def catchTx_def)

lemma sequenced_frame [simp]:
  "sequenced (s\<lparr>loading := b\<rparr>) = sequenced s"
  "sequenced (s\<lparr>status := x\<rparr>) = sequenced s"
  "sequenced (catchTx e s) = sequenced s"
  by (simp_all add: sequenced_def)

lemma handleTx_sequenced: "sequenced s \<Longrightarrow> sequenced (handleTx env a amt m s)"
  unfolding handleTx_def Let_def
  by (auto split: sum.splits action.splits intro!: invoke_sequenced simp: approve_spender_ok_def)

lemma settle_sequenced:
  assumes "sequenced s" "approve_spender_ok t"
  shows "sequenced (settle t r s)"
proof (cases r)
  case (Rejected e)
  with assms show ?thesis by (simp add: settle_def sequenced_def)
next
  case Fulfilled
  show ?thesis
  proof (cases "t_pc t")
    case (Sending c)
    with Fulfilled assms show ?thesis
      by (simp add: settle_def sequenced_def approve_spender_ok_def)
  next
    case (Waiting c)
    show ?thesis
    proof (cases c)
      case (C_approve spender amount)
      with Waiting assms(2) have sp: "spender = INZO_STAKE_ADDRESS"
        by (simp add: approve_spender_ok_def)
      let ?s1 = "s\<lparr>chain := Confirmed c # chain s, status := Status ''Staking...'' Info\<rparr>"
      have "sequenced ?s1" using assms(1) by (simp add: sequenced_def)
      moreover have "approval_confirmed amount (chain ?s1)"
        using C_approve sp by (simp add: approval_confirmed_def)
      ultimately have "sequenced (invoke (t_closure t) (t_successMsg t) (C_stake amount) ?s1)"
        by (intro invoke_sequenced) (simp_all add: approve_spender_ok_def)
      with Fulfilled Waiting C_approve show ?thesis
        by (simp add: settle_def)
    next
      case (C_stake x)
      with Fulfilled Waiting assms show ?thesis
        by (simp add: settle_def succeed_def sequenced_def approve_spender_ok_def)
    next
      case (C_withdraw x)
      with Fulfilled Waiting assms show ?thesis
        by (simp add: settle_def succeed_def sequenced_def approve_spender_ok_def)
    next
      case C_claimReward
      with Fulfilled Waiting assms show ?thesis
        by (simp add: settle_def succeed_def sequenced_def approve_spender_ok_def)
    qed
  next
    case Refetching
    with Fulfilled assms show ?thesis by (simp add: settle_def sequenced_def)
  qed
qed

lemma step_sequenced: "sequenced s \<Longrightarrow> sequenced (step env ev s)"
proof (cases ev)
  case (Click a)
  assume "sequenced s"
  then show ?thesis using Click
    by (cases a) (simp_all add: step_def click_def handleTx_sequenced)
next
  case (Settle i r)
  assume s: "sequenced s"
  show ?thesis
  proof (cases "i < length (tasks s) \<and> t_pc (tasks s ! i) \<noteq> Refetching")
    case True
    have "approve_spender_ok (tasks s ! i)"
      using s True by (simp add: sequenced_def list_all_length)
    moreover have "sequenced (s\<lparr>tasks := without i (tasks s)\<rparr>)"
      using s by (simp add: sequenced_def list_all_without)
    ultimately show ?thesis using Settle True
      by (simp add: step_def settle_sequenced)
  next
    case False
    then show ?thesis using Settle s by (auto simp: step_def)
  qed
next
  case (Fetched i rs)
  assume "sequenced s"
  then show ?thesis using Fetched
    by (simp add: step_def refetched_def sequenced_def list_all_without)
next
  case (Poll rs)
  assume "sequenced s"
  then show ?thesis using Poll by (simp add: step_def sequenced_def)
qed (simp_all add: step_def sequenced_def elapse_def Let_def)

lemma run_sequenced: "sequenced s \<Longrightarrow> sequenced (run env evs s)"
  unfolding run_def by (induction evs arbitrary: s) (simp_all add: step_sequenced)

subsection \<open>At most one action runs, under the busy flag\<close>

lemma one_in_flight_frame [simp]:
  "one_in_flight (s\<lparr>status := x\<rparr>) = one_in_flight s"
  "one_in_flight (s\<lparr>stakeAmount := v\<rparr>) = one_in_flight s"
  "one_in_flight (s\<lparr>withdrawAmount := v\<rparr>) = one_in_flight s"
  "one_in_flight (s\<lparr>inzoStakeContract := b, inzoUSDContract := b'\<rparr>) = one_in_flight s"
  "one_in_flight (fetchData env cl rs s) = one_in_flight s"
  "one_in_flight (elapse d s) = one_in_flight s"
  by (simp_all add: one_in_flight_def elapse_def Let_def)

lemma catchTx_one_in_flight: "tasks s = [] \<Longrightarrow> one_in_flight (catchTx e s)"
  by (simp add: one_in_flight_def)

lemma invoke_one_in_flight:
  "tasks s = [] \<Longrightarrow> loading s \<Longrightarrow> one_in_flight (invoke cl m c s)"
  by (simp add: invoke_def one_in_flight_def)

lemma succeed_one_in_flight:
  "tasks s = [] \<Longrightarrow> loading s \<Longrightarrow> one_in_flight (succeed t s)"
  by (simp add: succeed_def one_in_flight_def)

lemma handleTx_one_in_flight:
  assumes "tasks s = []"
  shows "one_in_flight (handleTx env a amt m s)"
  unfolding handleTx_def Let_def
  by (cases a; cases "parseUnits env amt")
    (simp_all add: catchTx_one_in_flight invoke_one_in_flight assms del: one_in_flight_frame)

lemma click_one_in_flight:
  assumes "one_in_flight s"
  shows "one_in_flight (click env a s)"
proof (cases "disabled a s")
  case True
  with assms show ?thesis by (simp add: click_def)
next
  case False
  then have "\<not> loading s" by (cases a) (simp_all add: disabled_def)
  with assms have "tasks s = []" by (auto simp: one_in_flight_def)
  with False show ?thesis
    by (cases a) (simp_all add: click_def handleTx_one_in_flight)
qed

lemma settle_one_in_flight:
  assumes "tasks s = []" "loading s"
  shows "one_in_flight (settle t r s)"
proof (cases r)
  case (Rejected e)
  with assms show ?thesis by (simp add: settle_def catchTx_one_in_flight)
next
  case Fulfilled
  show ?thesis
  proof (cases "t_pc t")
    case (Sending c)
    with Fulfilled assms show ?thesis by (simp add: settle_def one_in_flight_def)
  next
    case (Waiting c)
    show ?thesis
      using Fulfilled Waiting
      by (cases c)
        (simp_all add: settle_def Let_def invoke_one_in_flight succeed_one_in_flight assms
          del: one_in_flight_frame)
  next
    case Refetching
    with Fulfilled assms show ?thesis by (simp add: settle_def one_in_flight_def)
  qed
qed

lemma step_one_in_flight:
  assumes "one_in_flight s"
  shows "one_in_flight (step env ev s)"
proof (cases ev)
  case (Click a)
  with assms show ?thesis by (simp add: step_def click_one_in_flight)
next
  case (Settle i r)
  show ?thesis
  proof (cases "i < length (tasks s) \<and> t_pc (tasks s ! i) \<noteq> Refetching")
    case True
    with assms have l: "length (tasks s) = 1" "loading s"
      by (auto simp: one_in_flight_def)
    with True have "without i (tasks s) = []" by (simp add: without_single)
    with l have "one_in_flight (settle (tasks s ! i) r (s\<lparr>tasks := without i (tasks s)\<rparr>))"
      by (intro settle_one_in_flight) simp_all
    with Settle True show ?thesis by (simp add: step_def)
  next
    case False
    with Settle assms show ?thesis by (auto simp: step_def)
  qed
next
  case (Fetched i rs)
  show ?thesis
  proof (cases "i < length (tasks s) \<and> t_pc (tasks s ! i) = Refetching")
    case True
    with assms have "length (tasks s) = 1" by (auto simp: one_in_flight_def)
    with True have "without i (tasks s) = []" by (simp add: without_single)
    with Fetched True show ?thesis
      by (simp add: step_def refetched_def one_in_flight_def)
  next
    case False
    with Fetched assms show ?thesis by (auto simp: step_def)
  qed
qed (use assms in \<open>simp_all add: step_def\<close>)

lemma run_one_in_flight: "one_in_flight s \<Longrightarrow> one_in_flight (run env evs s)"
  unfolding run_def by (induction evs arbitrary: s) (simp_all add: step_one_in_flight)

lemma run_snoc: "run env (evs @ [ev]) s = step env ev (run env evs s)"
  by (simp add: run_def)

text \<open>
  C3: the two steps of a stake are sequential. In every run of a panel that starts with
  no action running, each \<open>stake(amount)\<close> call comes directly after the confirmation of
  \<open>approve(INZO_STAKE_ADDRESS, amount)\<close>; and when the promise a running action awaits is
  rejected, the action ends there: no call is made, the action is gone, and the status
  is the error.
\<close>

theorem stake_only_after_approval_confirmed:
  assumes "tasks s0 = []" and "stake_after_approval (chain s0)"
  shows "stake_after_approval (chain (run env evs s0))
       \<and> (i < length (tasks s) \<and> t_pc (tasks s ! i) \<noteq> Refetching \<longrightarrow>
            chain (step env (Settle i (Rejected error)) s) = chain s
          \<and> tasks (step env (Settle i (Rejected error)) s) = without i (tasks s)
          \<and> status (step env (Settle i (Rejected error)) s)
              = Status (''Failed: '' @ reasonOr error) Error)"
proof -
  from assms have "sequenced s0" by (simp add: sequenced_def)
  then have "sequenced (run env evs s0)" by (rule run_sequenced)
  then have "stake_after_approval (chain (run env evs s0))" by (simp add: sequenced_def)
  then show ?thesis by (simp add: step_def settle_def)
qed

theorem stake_only_after_approval_confirmed_witness:
  "chain (run js_env stake_100 funded_panel) =
     [Invoked (C_stake (100 * 10 ^ 18)),
      Confirmed (C_approve INZO_STAKE_ADDRESS (100 * 10 ^ 18)),
      Invoked (C_approve INZO_STAKE_ADDRESS (100 * 10 ^ 18))]
   \<and> stake_after_approval (chain (run js_env stake_100 funded_panel))
   \<and> chain (run js_env (butlast stake_100 @ [Settle 0 (Rejected (JsError ''reverted'' None None))]) funded_panel)
       = [Invoked (C_approve INZO_STAKE_ADDRESS (100 * 10 ^ 18))]
   \<and> tasks (run js_env (butlast stake_100 @ [Settle 0 (Rejected (JsError ''reverted'' None None))]) funded_panel) = []
   \<and> status (run js_env (butlast stake_100 @ [Settle 0 (Rejected (JsError ''reverted'' None None))]) funded_panel)
       = Status ''Failed: Check console'' Error"
proof -
  have a: "tasks funded_panel = []" "stake_after_approval (chain funded_panel)"
    by code_simp+
  have c: "chain (run js_env stake_100 funded_panel) =
     [Invoked (C_stake (100 * 10 ^ 18)),
      Confirmed (C_approve INZO_STAKE_ADDRESS (100 * 10 ^ 18)),
      Invoked (C_approve INZO_STAKE_ADDRESS (100 * 10 ^ 18))]"
    by code_simp
  have w: "tasks (run js_env (butlast stake_100) funded_panel)
             = [\<lparr>t_pc = Waiting (C_approve INZO_STAKE_ADDRESS (100 * 10 ^ 18)),
                 t_successMsg = ''Staked successfully!'',
                 t_closure = capture funded_panel\<rparr>]"
    "chain (run js_env (butlast stake_100) funded_panel)
             = [Invoked (C_approve INZO_STAKE_ADDRESS (100 * 10 ^ 18))]"
    by code_simp+
  show ?thesis
    using stake_only_after_approval_confirmed [OF a, of js_env stake_100 0
        "run js_env (butlast stake_100) funded_panel" "JsError ''reverted'' None None"]
      c w
    by (simp add: run_snoc without_def reasonOr_def)
qed

text \<open>
  C4: in every run of a panel that starts with no action running, at most one action
  is running; while one is running the busy flag is set; and while the busy flag is set
  a click on any of the three buttons changes nothing.
\<close>

theorem busy_panel_rejects_actions:
  assumes "tasks s0 = []"
  shows "length (tasks (run env evs s0)) \<le> 1
       \<and> (tasks (run env evs s0) \<noteq> [] \<longrightarrow> loading (run env evs s0))
       \<and> (loading (run env evs s0) \<longrightarrow> step env (Click a) (run env evs s0) = run env evs s0)"
proof -
  from assms have "one_in_flight s0" by (simp add: one_in_flight_def)
  then have "one_in_flight (run env evs s0)" by (rule run_one_in_flight)
  then have "length (tasks (run env evs s0)) \<le> 1"
    and "tasks (run env evs s0) \<noteq> [] \<longrightarrow> loading (run env evs s0)"
    by (auto simp: one_in_flight_def)
  moreover have "loading s \<longrightarrow> step env (Click a) s = s" for s
    by (cases a) (simp_all add: step_def click_def disabled_def)
  ultimately show ?thesis by blast
qed

theorem busy_panel_rejects_actions_witness:
  "length (tasks (run js_env [ChangeStake ''100'', Click Stake] funded_panel)) = 1
   \<and> loading (run js_env [ChangeStake ''100'', Click Stake] funded_panel)
   \<and> step js_env (Click Claim) (run js_env [ChangeStake ''100'', Click Stake] funded_panel)
       = run js_env [ChangeStake ''100'', Click Stake] funded_panel
   \<and> \<not> disabled Claim funded_panel"
proof -
  have a: "tasks funded_panel = []" by code_simp
  have t: "length (tasks (run js_env [ChangeStake ''100'', Click Stake] funded_panel)) = 1"
    by code_simp
  have d: "\<not> disabled Claim funded_panel" by code_simp
  from t have n: "tasks (run js_env [ChangeStake ''100'', Click Stake] funded_panel) \<noteq> []"
    by auto
  show ?thesis
    using busy_panel_rejects_actions [OF a, of js_env "[ChangeStake ''100'', Click Stake]" Claim] t n d
    by simp
qed

subsection \<open>The status after an action\<close>

lemma succeed_schedules_reset:
  "status (succeed t s) = Status (t_successMsg t) Success
   \<and> timers (succeed t s) = timers s @ [now s + 3000]"
  by (simp add: succeed_def)

lemma catchTx_schedules_nothing: "timers (catchTx error s) = timers s"
  by simp

lemma elapse_resets_status:
  "list_ex (\<lambda>due. due \<le> now s + d) (timers s) \<Longrightarrow> status (elapse d s) = idle"
  by (simp add: elapse_def Let_def)

lemma elapse_keeps_status:
  "\<not> list_ex (\<lambda>due. due \<le> now s + d) (timers s) \<Longrightarrow> status (elapse d s) = status s"
  by (simp add: elapse_def Let_def)

text \<open>
  C5 at a run the panel allows: a claim succeeds (status \<open>Rewards claimed!\<close>, timer due at
  3000 ms); one second later a stake of the amount \<open>0\<close> fails, and the status is the
  error. Two seconds later the timer of the claim fires and resets the status, with
  no action attempted in between: the timer is never cancelled (line 270).
\<close>

theorem stale_timer_clears_error:
  "status (run js_env (take 3 claim_then_bad_stake) funded_panel) = Status ''Rewards claimed!'' Success
   \<and> status (run js_env claim_then_bad_stake funded_panel) = Status ''Failed: Check console'' Error
   \<and> timers (run js_env claim_then_bad_stake funded_panel) = [3000]
   \<and> now (run js_env claim_then_bad_stake funded_panel) = 1000
   \<and> status (run js_env (claim_then_bad_stake @ [Elapse 2000]) funded_panel) = Status [] NoType"
  by code_simp

text \<open>
  C8: when the rewards shown are at or below 0.000001 the claim button is disabled, and a
  click on it changes nothing: no contract call is made. (A double is at or below the
  literal \<open>0.000001\<close> exactly when the rational it denotes is at or below one millionth.)
\<close>

theorem claim_disabled_at_threshold:
  assumes "earnedRewards s \<le> 1 / 1000000"
  shows "disabled Claim s \<and> step env (Click Claim) s = s"
  using assms by (simp add: disabled_def step_def click_def)

theorem claim_disabled_at_threshold_witness:
  "earnedRewards (ready_panel\<lparr>earnedRewards := 1 / 10000000\<rparr>) \<le> 1 / 1000000
   \<and> disabled Claim (ready_panel\<lparr>earnedRewards := 1 / 10000000\<rparr>)
   \<and> step js_env (Click Claim) (ready_panel\<lparr>earnedRewards := 1 / 10000000\<rparr>)
       = ready_panel\<lparr>earnedRewards := 1 / 10000000\<rparr>"
proof -
  have h: "earnedRewards (ready_panel\<lparr>earnedRewards := 1 / 10000000\<rparr>) \<le> 1 / 1000000"
    by simp
  show ?thesis
    using h claim_disabled_at_threshold [OF h, of js_env] by simp
qed

text \<open>
  C10: a non-empty amount that \<open>parseFloat\<close> reads as \<open>NaN\<close> passes the validation of line
  255, since \<open>NaN <= 0\<close> is false. When \<open>parseUnits\<close> then throws on it (line 256),
  \<open>handleTx\<close> ends with the error status made from that error, and nothing else of the
  panel changes: no contract call is made. \<open>abc\<close> is such an amount.
\<close>

theorem handleTx_NaN_amount:
  assumes "action = Stake \<or> action = Withdraw"
    and "amountStr \<noteq> []"
    and "parseFloat env amountStr = NaN"
    and "parseUnits env amountStr = Inl error"
  shows "\<not> invalidAmount env action amountStr
       \<and> handleTx env action amountStr successMsg s =
           s\<lparr>status := Status (''Failed: '' @ reasonOr error) Error, loading := False\<rparr>"
proof -
  from assms(2,3) have v: "\<not> invalidAmount env action amountStr"
    by (simp add: invalidAmount_def js_le0_def)
  from assms(1) have "action \<noteq> Claim" by auto
  with v assms(4) show ?thesis
    by (simp add: handleTx_def catchTx_def Let_def)
qed

theorem handleTx_NaN_amount_witness:
  "''abc'' \<noteq> [] \<and> parseFloat js_env ''abc'' = NaN
   \<and> \<not> invalidAmount js_env Stake ''abc''
   \<and> handleTx js_env Stake ''abc'' ''Staked successfully!'' ready_panel =
       ready_panel\<lparr>status := Status ''Failed: Check console'' Error, loading := False\<rparr>
   \<and> chain (ready_panel\<lparr>status := Status ''Failed: Check console'' Error, loading := False\<rparr>) = []"
proof -
  have n: "parseFloat js_env ''abc'' = NaN" by code_simp
  have u: "parseUnits js_env ''abc'' = Inl (JsError ''invalid FixedNumber string value'' None None)"
    by code_simp
  have c: "chain ready_panel = []"
    by (simp add: ready_panel_def step_def mounted_def)
  show ?thesis
    using handleTx_NaN_amount [of Stake "''abc''" js_env _ "''Staked successfully!''" ready_panel, OF _ _ n u]
      n c
    by (simp add: reasonOr_def)
qed

section \<open>Animated numbers\<close>

lemma mount_single_writer: "single_writer (mount v p)"
  by (simp add: mount_def effect_def animate_def single_writer_def)

lemma cleanup_sessions:
  "single_writer s \<Longrightarrow> sessions (cleanup s) = []"
  by (cases "sessions s")
    (auto simp: single_writer_def cleanup_def stop_def split: option.splits)

lemma cleanup_frame [simp]:
  "node (cleanup s) = node s" "prevValue (cleanup s) = prevValue s" "fresh (cleanup s) = fresh s"
  by (simp_all add: cleanup_def stop_def split: option.splits)

lemma render_changed:
  assumes "single_writer s" "deps s \<noteq> (v, p)"
  shows "sessions (render v p s) = [(fresh s, \<lparr>tw_from = prevValue s, tw_to = v\<rparr>)]"
    and "controls (render v p s) = Some (fresh s)"
    and "prevValue (render v p s) = v" and "deps (render v p s) = (v, p)" and "node (render v p s)"
    and "fresh (render v p s) = Suc (fresh s)"
  using assms cleanup_sessions [OF assms(1)]
  by (simp_all add: render_def effect_def animate_def single_writer_def)

lemma render_single_writer:
  assumes "single_writer s"
  shows "single_writer (render v p s)"
proof (cases "deps s = (v, p)")
  case True
  with assms show ?thesis by (simp add: render_def)
next
  case False
  show ?thesis
    unfolding single_writer_def
    using render_changed [OF assms False] by simp
qed

lemma filter_single_writer:
  "single_writer s \<Longrightarrow> single_writer (s\<lparr>sessions := filter P (sessions s)\<rparr>)"
  by (cases "sessions s") (auto simp: single_writer_def)

lemma text_single_writer:
  "single_writer s \<Longrightarrow> single_writer (s\<lparr>textContent := x\<rparr>)"
  by (auto simp: single_writer_def list_all_iff)

lemma slot_step_single_writer: "single_writer s \<Longrightarrow> single_writer (slot_step ev s)"
  by (cases ev)
    (simp_all add: slot_step_def render_single_writer filter_single_writer text_single_writer)

lemma slot_run_single_writer: "single_writer s \<Longrightarrow> single_writer (slot_run evs s)"
  unfolding slot_run_def by (induction evs arbitrary: s) (simp_all add: slot_step_single_writer)

text \<open>
  C6: in a slot reached from its mount by renders, samples and ends of animations, a
  render with a new value leaves exactly one animation running, the fresh one, which
  starts at the value of the previous render and ends at the new value. An animation
  that was running before had the value of the previous render as its target, and it
  is no longer running. The start is the last target, not the number last shown.
\<close>

theorem retarget_restarts_from_last_target:
  assumes "s = slot_run evs (mount v0 p0)" and "v \<noteq> fst (deps s)"
  shows "sessions (render v p s) = [(fresh s, \<lparr>tw_from = fst (deps s), tw_to = v\<rparr>)]
       \<and> list_all (\<lambda>x. fst x \<noteq> fresh s \<and> tw_to (snd x) = fst (deps s)) (sessions s)
       \<and> length (sessions s) \<le> 1"
proof -
  have sw: "single_writer s"
    using assms(1) by (simp add: slot_run_single_writer mount_single_writer)
  have d: "deps s \<noteq> (v, p)" using assms(2) by auto
  have "sessions (render v p s) = [(fresh s, \<lparr>tw_from = fst (deps s), tw_to = v\<rparr>)]"
    using render_changed(1) [OF sw d] sw by (simp add: single_writer_def)
  moreover have "list_all (\<lambda>x. fst x \<noteq> fresh s \<and> tw_to (snd x) = fst (deps s)) (sessions s)"
    using sw by (auto simp: single_writer_def list_all_iff)
  moreover have "length (sessions s) \<le> 1"
    using sw by (simp add: single_writer_def)
  ultimately show ?thesis by simp
qed

theorem retarget_restarts_from_last_target_witness:
  "sessions midway = [(1, \<lparr>tw_from = 0, tw_to = 10\<rparr>)]
   \<and> textContent midway = Some 4
   \<and> sessions (render 20 2 midway) = [(2, \<lparr>tw_from = 10, tw_to = 20\<rparr>)]"
proof -
  have m: "sessions midway = [(1, \<lparr>tw_from = 0, tw_to = 10\<rparr>)]" "textContent midway = Some 4"
    "fst (deps midway) = 10" "fresh midway = 2"
    by code_simp+
  have n: "(20::rat) \<noteq> fst (deps midway)" using m by simp
  show ?thesis
    using retarget_restarts_from_last_target [OF midway_def n, of 2] m by simp
qed

section \<open>Tween samples\<close>












section \<open>Wallet connection\<close>

lemma toQuantity_chain: "toQuantity CORRECT_CHAIN_ID = ''0x190f1b45''"
  by (simp add: toQuantity_def CORRECT_CHAIN_ID_def hexDigit_def)

lemma signIn_requests:
  "app_requests (catchFinally (signIn w s)) = app_requests s"
  by (simp add: signIn_def catchFinally_def split: outcome.splits sum.splits)

lemma connecting_wrong_chain:
  assumes "w_talisman w" and "w_enable w = Fulfilled" and "w_talismanEth w"
    and "w_getNetwork w = Inr chainId" and "chainId \<noteq> CORRECT_CHAIN_ID"
  shows "connecting w s =
           (case switchNetwork w s of Inl thrown \<Rightarrow> Inl thrown | Inr s1 \<Rightarrow> signIn w s1)"
  using assms by (simp add: connecting_def)

text \<open>
  C7: when the wallet is found and enabled and reports a chain other than the target,
  \<open>connectWallet\<close> first sends the switch request for the target chain. If the switch is
  refused with code 4902, the add request with \<open>networkConfig\<close> follows. If it is refused
  in any other way, nothing more is sent and the connection ends with the error status
  \<open>User rejected network switch.\<close>, the address and the contract unset as before.
\<close>

theorem connectWallet_switch_or_add:
  assumes "w_talisman w" and "w_enable w = Fulfilled" and "w_talismanEth w"
    and "w_getNetwork w = Inr chainId" and "chainId \<noteq> CORRECT_CHAIN_ID"
  shows "take 1 (drop (length (app_requests s)) (app_requests (connectWallet w s)))
           = [Wallet_switchEthereumChain (n_chainId networkConfig)]
       \<and> (w_switch w = Rejected switchError \<and> err_code switchError = Some 4902 \<longrightarrow>
            app_requests (connectWallet w s) =
              app_requests s @ [Wallet_switchEthereumChain (n_chainId networkConfig),
                                Wallet_addEthereumChain networkConfig])
       \<and> (w_switch w = Rejected switchError \<and> err_code switchError \<noteq> Some 4902 \<longrightarrow>
            connectWallet w s =
              s\<lparr>app_loading := False,
                app_status := Status ''User rejected network switch.'' Error,
                app_requests := app_requests s @ [Wallet_switchEthereumChain (n_chainId networkConfig)]\<rparr>)"
proof -
  let ?s0 = "s\<lparr>app_loading := True, app_status := Status ''Connecting...'' Info\<rparr>"
  let ?switch = "Wallet_switchEthereumChain (n_chainId networkConfig)"
  have c: "connectWallet w s =
             catchFinally (case switchNetwork w ?s0 of Inl thrown \<Rightarrow> Inl thrown | Inr s1 \<Rightarrow> signIn w s1)"
    by (simp add: connectWallet_def connecting_wrong_chain [OF assms])
  have ok: "app_requests (connectWallet w s) = app_requests s @ [?switch]"
    if "w_switch w = Fulfilled"
    using that by (simp add: c switchNetwork_def Let_def signIn_requests)
  have add: "app_requests (connectWallet w s) = app_requests s @ [?switch, Wallet_addEthereumChain networkConfig]"
    if "w_switch w = Rejected e" "err_code e = Some 4902" for e
  proof (cases "w_add w")
    case Fulfilled
    with that show ?thesis by (simp add: c switchNetwork_def Let_def signIn_requests)
  next
    case (Rejected error)
    with that show ?thesis by (simp add: c switchNetwork_def Let_def catchFinally_def)
  qed
  have other: "connectWallet w s =
              s\<lparr>app_loading := False,
                app_status := Status ''User rejected network switch.'' Error,
                app_requests := app_requests s @ [?switch]\<rparr>"
    if "w_switch w = Rejected e" "err_code e \<noteq> Some 4902" for e
    using that by (simp add: c switchNetwork_def Let_def catchFinally_def)
  have first: "take 1 (drop (length (app_requests s)) (app_requests (connectWallet w s))) = [?switch]"
  proof (cases "w_switch w")
    case Fulfilled
    then show ?thesis by (simp add: ok)
  next
    case (Rejected e)
    show ?thesis
    proof (cases "err_code e = Some 4902")
      case True
      with Rejected show ?thesis by (simp add: add)
    next
      case False
      with Rejected show ?thesis by (simp add: other)
    qed
  qed
  from first add other show ?thesis by blast
qed

theorem connectWallet_switch_or_add_witness:
  "app_requests (connectWallet (wrong_network_wallet (Rejected (JsError ''Unrecognized chain'' None (Some 4902)))) disconnected)
     = [Wallet_switchEthereumChain ''0x190f1b45'', Wallet_addEthereumChain networkConfig]
   \<and> connectWallet (wrong_network_wallet (Rejected (JsError ''denied'' None (Some 4001)))) disconnected
     = disconnected\<lparr>app_status := Status ''User rejected network switch.'' Error,
                    app_requests := [Wallet_switchEthereumChain ''0x190f1b45'']\<rparr>"
proof -
  have q: "n_chainId networkConfig = ''0x190f1b45''"
    by (simp add: networkConfig_def toQuantity_chain)
  have d: "app_requests disconnected = []" "disconnected\<lparr>app_loading := False\<rparr> = disconnected"
    by (simp_all add: disconnected_def)
  have w: "w_talisman (wrong_network_wallet sw)" "w_enable (wrong_network_wallet sw) = Fulfilled"
    "w_talismanEth (wrong_network_wallet sw)" "w_getNetwork (wrong_network_wallet sw) = Inr 1"
    "w_switch (wrong_network_wallet sw) = sw" for sw
    by (simp_all add: wrong_network_wallet_def)
  have c: "(1::nat) \<noteq> CORRECT_CHAIN_ID" by (simp add: CORRECT_CHAIN_ID_def)
  show ?thesis
    using connectWallet_switch_or_add [OF w(1-4) c,
        where sw1 = "Rejected (JsError ''Unrecognized chain'' None (Some 4902))"
          and switchError = "JsError ''Unrecognized chain'' None (Some 4902)" and s = disconnected]
      connectWallet_switch_or_add [OF w(1-4) c,
        where sw1 = "Rejected (JsError ''denied'' None (Some 4001))"
          and switchError = "JsError ''denied'' None (Some 4001)" and s = disconnected]
      q d w(5)
    by simp
qed

end
